theory Spec2Isabelle
  imports Main
begin

section \<open>The preamble rule of the SIP validator\<close>

text \<open>
  A shallow embedding of \<^verbatim>\<open>tools/validate/src/rules/preamble.ts\<close>: the rule that
  checks the YAML front-matter of a proposal. The rule's handler receives an AST node,
  decodes its text, and calls \<^verbatim>\<open>context.report\<close> once per violation.

  Conventions of the embedding:
  \<^item> a JavaScript string is a \<^typ>\<open>string\<close>; its characters are the code units
    \<open>0x00\<close> to \<open>0xFF\<close> (code units above \<open>0xFF\<close> are outside the model);
  \<^item> \<^verbatim>\<open>YAML.parse\<close> is a library function and a parameter of the handler: it
    returns a decoded value or throws;
  \<^item> \<^verbatim>\<open>new Date()\<close> is a parameter of the handler: the local year, month index
    and day of the month at the time of the call;
  \<^item> the calls of \<^verbatim>\<open>context.report\<close> are the list of diagnostics returned, in
    the order of the calls; every call passes the handler's own node;
  \<^item> an exception that leaves the handler is a \<open>fault\<close> beside that list.
\<close>

subsection \<open>Decoded values\<close>

text \<open>
  What \<^verbatim>\<open>YAML.parse\<close> returns: null, a boolean, a number, a string, an array or
  a plain object. The properties of an object are kept in enumeration order, as
  \<^verbatim>\<open>Object.keys\<close> and \<^verbatim>\<open>Object.entries\<close> list them. The rule never reads
  the payload of a number, only its \<^verbatim>\<open>typeof\<close>.
\<close>

datatype jsval =
    JNull
  | JBool bool
  | JNum int
  | JStr string
  | JArr "jsval list"
  | JObj "(string \<times> jsval) list"

fun typeof :: "jsval \<Rightarrow> string" where
  "typeof JNull = ''object''"
| "typeof (JBool b) = ''boolean''"
| "typeof (JNum n) = ''number''"
| "typeof (JStr s) = ''string''"
| "typeof (JArr xs) = ''object''"
| "typeof (JObj kvs) = ''object''"

text \<open>A value that is an object in the sense of \<^verbatim>\<open>typeof\<close> and is not null.\<close>

datatype jsobject = Plain "(string \<times> jsval) list" | Array "jsval list"

definition digit_char :: "nat \<Rightarrow> char" where
  "digit_char n = ''0123456789'' ! (n mod 10)"

fun string_of_nat :: "nat \<Rightarrow> string" where
  "string_of_nat n =
     (if n < 10 then [digit_char n] else string_of_nat (n div 10) @ [digit_char n])"

declare string_of_nat.simps [simp del]

text \<open>\<^verbatim>\<open>Object.entries\<close>: the own enumerable properties; an array has its indices.\<close>

fun own_entries :: "jsobject \<Rightarrow> (string \<times> jsval) list" where
  "own_entries (Plain kvs) = kvs"
| "own_entries (Array xs) = zip (map string_of_nat [0..<length xs]) xs"

definition own_keys :: "jsobject \<Rightarrow> string list" where
  "own_keys ob = map fst (own_entries ob)"

text \<open>
  The property names every object inherits from \<^verbatim>\<open>Object.prototype\<close>, and those
  an array inherits from \<^verbatim>\<open>Array.prototype\<close> (ECMAScript 2023). The operator
  \<^verbatim>\<open>in\<close> looks through the prototype chain.
\<close>

definition Object_prototype_keys :: "string list" where
  "Object_prototype_keys =
     [''constructor'', ''__defineGetter__'', ''__defineSetter__'', ''hasOwnProperty'',
      ''__lookupGetter__'', ''__lookupSetter__'', ''isPrototypeOf'',
      ''propertyIsEnumerable'', ''toString'', ''valueOf'', ''__proto__'',
      ''toLocaleString'']"

definition Array_prototype_keys :: "string list" where
  "Array_prototype_keys =
     [''length'', ''constructor'', ''at'', ''concat'', ''copyWithin'', ''fill'', ''find'',
      ''findIndex'', ''findLast'', ''findLastIndex'', ''lastIndexOf'', ''pop'', ''push'',
      ''reverse'', ''shift'', ''unshift'', ''slice'', ''sort'', ''splice'', ''includes'',
      ''indexOf'', ''join'', ''keys'', ''entries'', ''values'', ''forEach'', ''filter'',
      ''flat'', ''flatMap'', ''map'', ''every'', ''some'', ''reduce'', ''reduceRight'',
      ''toLocaleString'', ''toString'', ''toReversed'', ''toSorted'', ''toSpliced'',
      ''with'']"

text \<open>
  \<^verbatim>\<open>key in array\<close>: an index below the length, \<^verbatim>\<open>length\<close>, or an inherited
  name. The elements of the array play no part.
\<close>

definition array_has_property :: "string \<Rightarrow> 'a list \<Rightarrow> bool" where
  "array_has_property k xs =
     (k \<in> set (map string_of_nat [0..<length xs]) \<or> k = ''length''
      \<or> k \<in> set Array_prototype_keys \<or> k \<in> set Object_prototype_keys)"

fun has_property :: "string \<Rightarrow> jsobject \<Rightarrow> bool" where
  "has_property k (Plain kvs) = (k \<in> set (map fst kvs) \<or> k \<in> set Object_prototype_keys)"
| "has_property k (Array xs) = array_has_property k xs"

text \<open>
  A property read, \<^verbatim>\<open>preamble.status\<close> or \<^verbatim>\<open>preamble[dateHeader]\<close>: the own
  property, \<open>None\<close> for \<^verbatim>\<open>undefined\<close>. The rule reads \<^verbatim>\<open>status\<close>,
  \<^verbatim>\<open>category\<close>, \<^verbatim>\<open>author\<close>, \<^verbatim>\<open>created\<close> and \<^verbatim>\<open>updated\<close> only, none of
  which is inherited or an array's \<^verbatim>\<open>length\<close>.
\<close>

definition get_property :: "jsobject \<Rightarrow> string \<Rightarrow> jsval option" where
  "get_property ob k = map_of (own_entries ob) k"

subsection \<open>Regular expressions\<close>

text \<open>
  A backtracking matcher for the constructs the rule's patterns use. A state is the
  array of captures (slot 0 for the whole match), the text before the position,
  reversed, and the text from the position on. The matcher returns the states after
  every way of matching, in the order in which a backtracking engine tries them, so
  the head of the list is the match that \<^verbatim>\<open>exec\<close> reports.
\<close>

datatype regex =
    Eps
  | Chr char
  | Cls "char \<Rightarrow> bool"
  | Seq regex regex
  | Alt regex regex
  | Upto nat regex
  | Star regex
  | Group nat regex
  | Look regex
  | Bol
  | Eol

type_synonym mstate = "string option list \<times> string \<times> string"

definition progress :: "mstate \<Rightarrow> mstate \<Rightarrow> bool" where
  "progress st st' = (length (snd (snd st')) < length (snd (snd st)))"

text \<open>
  Greedy repetition, at most \<open>n\<close> times: one more iteration is tried before stopping,
  and an iteration that consumes nothing is rejected.
\<close>

primrec repeat_upto :: "(mstate \<Rightarrow> mstate list) \<Rightarrow> nat \<Rightarrow> mstate \<Rightarrow> mstate list" where
  "repeat_upto f 0 st = [st]"
| "repeat_upto f (Suc n) st =
     concat (map (repeat_upto f n) (filter (progress st) (f st))) @ [st]"

definition line_terminator :: "char \<Rightarrow> bool" where
  "line_terminator c = (c = CHR 0x0A \<or> c = CHR 0x0D)"

text \<open>
  \<open>ml\<close> is the flag \<^verbatim>\<open>m\<close>: with it \<^verbatim>\<open>^\<close> and \<^verbatim>\<open>$\<close> also match beside a line
  terminator. \<open>Star\<close> needs no more iterations than there are characters left.
\<close>

fun rmatch :: "bool \<Rightarrow> regex \<Rightarrow> mstate \<Rightarrow> mstate list" where
  "rmatch ml Eps st = [st]"
| "rmatch ml (Chr c) (g, p, r) =
     (case r of [] \<Rightarrow> [] | x # xs \<Rightarrow> if x = c then [(g, x # p, xs)] else [])"
| "rmatch ml (Cls P) (g, p, r) =
     (case r of [] \<Rightarrow> [] | x # xs \<Rightarrow> if P x then [(g, x # p, xs)] else [])"
| "rmatch ml (Seq a b) st = concat (map (rmatch ml b) (rmatch ml a st))"
| "rmatch ml (Alt a b) st = rmatch ml a st @ rmatch ml b st"
| "rmatch ml (Upto n a) st = repeat_upto (rmatch ml a) n st"
| "rmatch ml (Star a) (g, p, r) = repeat_upto (rmatch ml a) (length r) (g, p, r)"
| "rmatch ml (Group i a) (g, p, r) =
     map (\<lambda>(g', p', r'). (g'[i := Some (take (length r - length r') r)], p', r'))
       (rmatch ml a (g, p, r))"
| "rmatch ml (Look a) (g, p, r) =
     (case rmatch ml a (g, p, r) of [] \<Rightarrow> [] | (g', _, _) # _ \<Rightarrow> [(g', p, r)])"
| "rmatch ml Bol (g, p, r) =
     (if p = [] \<or> (ml \<and> line_terminator (hd p)) then [(g, p, r)] else [])"
| "rmatch ml Eol (g, p, r) =
     (if r = [] \<or> (ml \<and> line_terminator (hd r)) then [(g, p, r)] else [])"

text \<open>
  \<^verbatim>\<open>RegExp.prototype.exec\<close> without the flags \<^verbatim>\<open>g\<close> and \<^verbatim>\<open>y\<close>: the first
  start position, from the left, at which the pattern matches; the result is the
  array of the whole match and one slot per capture group (\<open>None\<close> for a group that
  took no part), or \<open>None\<close> for \<^verbatim>\<open>null\<close>. \<open>n\<close> is the number of groups.
\<close>

fun exec_from :: "bool \<Rightarrow> regex \<Rightarrow> nat \<Rightarrow> string \<Rightarrow> string \<Rightarrow> string option list option" where
  "exec_from ml re n p [] =
     (case rmatch ml re (replicate (Suc n) None, p, []) of
        (g, p', r') # _ \<Rightarrow> Some (g[0 := Some []])
      | [] \<Rightarrow> None)"
| "exec_from ml re n p (x # xs) =
     (case rmatch ml re (replicate (Suc n) None, p, x # xs) of
        (g, p', r') # _ \<Rightarrow> Some (g[0 := Some (take (length (x # xs) - length r') (x # xs))])
      | [] \<Rightarrow> exec_from ml re n (x # p) xs)"

definition exec :: "bool \<Rightarrow> regex \<Rightarrow> nat \<Rightarrow> string \<Rightarrow> string option list option" where
  "exec ml re n s = exec_from ml re n [] s"

text \<open>An element of a match array; an index past the end reads \<^verbatim>\<open>undefined\<close>.\<close>

definition group :: "string option list \<Rightarrow> nat \<Rightarrow> string option" where
  "group m i = (if i < length m then m ! i else None)"

definition Seqs :: "regex list \<Rightarrow> regex" where
  "Seqs rs = foldr Seq rs Eps"

definition Plus :: "regex \<Rightarrow> regex" where
  "Plus r = Seq r (Star r)"

definition Opt :: "regex \<Rightarrow> regex" where
  "Opt r = Upto 1 r"

definition Dot :: regex where
  "Dot = Cls (\<lambda>c. \<not> line_terminator c)"

definition is_digit :: "char \<Rightarrow> bool" where
  "is_digit c = (c \<in> set ''0123456789'')"

definition is_lower :: "char \<Rightarrow> bool" where
  "is_lower c = (c \<in> set ''abcdefghijklmnopqrstuvwxyz'')"

definition is_upper :: "char \<Rightarrow> bool" where
  "is_upper c = (c \<in> set ''ABCDEFGHIJKLMNOPQRSTUVWXYZ'')"

definition is_alnum :: "char \<Rightarrow> bool" where
  "is_alnum c = (is_lower c \<or> is_upper c \<or> is_digit c)"

definition is_word :: "char \<Rightarrow> bool" where
  "is_word c = (is_alnum c \<or> c = CHR ''_'')"

text \<open>
  White space and line terminators, as \<^verbatim>\<open>\s\<close> and \<^verbatim>\<open>trim\<close> take them: tab, line
  feed, vertical tab, form feed, carriage return, space and no-break space.
\<close>

definition is_space :: "char \<Rightarrow> bool" where
  "is_space c = (c \<in> set [CHR 0x09, CHR 0x0A, CHR 0x0B, CHR 0x0C, CHR 0x0D, CHR 0x20, CHR 0xA0])"

definition trim :: "string \<Rightarrow> string" where
  "trim s = rev (dropWhile is_space (rev (dropWhile is_space s)))"

text \<open>\<^verbatim>\<open>s.split(",")\<close>: never empty; the empty string gives one empty piece.\<close>

fun split_comma :: "string \<Rightarrow> string list" where
  "split_comma [] = [[]]"
| "split_comma (c # cs) =
     (if c = CHR '','' then [] # split_comma cs
      else (case split_comma cs of [] \<Rightarrow> [[c]] | x # xs \<Rightarrow> (c # x) # xs))"

definition digit_value :: "char \<Rightarrow> nat" where
  "digit_value c = of_char c - 48"

text \<open>\<^verbatim>\<open>Number\<close> on a string of decimal digits, which is all the rule gives it.\<close>

definition Number :: "string \<Rightarrow> nat" where
  "Number s = foldl (\<lambda>a c. 10 * a + digit_value c) 0 s"

subsection \<open>The rule's tables and patterns\<close>

definition HEADER_TYPES :: "(string \<times> string) list" where
  "HEADER_TYPES =
     [(''sip'', ''number''), (''title'', ''string''), (''status'', ''string''),
      (''author'', ''string''), (''created'', ''string''), (''updated'', ''string'')]"

definition HEADER_ORDER :: "string list" where
  "HEADER_ORDER =
     [''sip'', ''title'', ''status'', ''category'', ''author'', ''created'', ''updated'']"

definition HEADER_REQUIRED :: "string list" where
  "HEADER_REQUIRED = [''sip'', ''title'', ''status'', ''category'', ''author'', ''created'']"

definition HEADER_OPTIONAL :: "string list" where
  "HEADER_OPTIONAL = [''updated'']"

definition HEADER_ALL :: "string list" where
  "HEADER_ALL = HEADER_REQUIRED @ HEADER_OPTIONAL"

definition HEADER_DATES :: "string list" where
  "HEADER_DATES = [''created'', ''updated'']"

definition STATUES :: "string list" where
  "STATUES = [''Draft'', ''Review'', ''Final'', ''Withdrawn'', ''Living'']"

definition CATEGORIES :: "string list" where
  "CATEGORIES = [''Core'', ''Blockchain'', ''Meta'']"

text \<open>
  \<^verbatim>\<open>/^(?<year>\d\d\d\d)\-(?<month>\d\d)\-(?<day>\d\d)$/\<close>, the groups numbered 1 to 3.
\<close>

definition ISO8601 :: regex where
  "ISO8601 =
     Seqs [Bol,
           Group 1 (Seqs [Cls is_digit, Cls is_digit, Cls is_digit, Cls is_digit]),
           Chr CHR ''-'',
           Group 2 (Seqs [Cls is_digit, Cls is_digit]),
           Chr CHR ''-'',
           Group 3 (Seqs [Cls is_digit, Cls is_digit]),
           Eol]"

text \<open>\<^verbatim>\<open>/^([a-z]+):.+$/m\<close>\<close>

definition HEADERS_REGEX :: regex where
  "HEADERS_REGEX =
     Seqs [Bol, Group 1 (Plus (Cls is_lower)), Chr CHR '':'', Plus Dot, Eol]"

text \<open>\<^verbatim>\<open>[a-zA-Z\d](?:[a-zA-Z\d]|-(?=[a-zA-Z\d])){0,38}\<close>\<close>

definition GITHUB_USERNAME :: regex where
  "GITHUB_USERNAME =
     Seq (Cls is_alnum)
       (Upto 38 (Alt (Cls is_alnum) (Seq (Chr CHR ''-'') (Look (Cls is_alnum)))))"

text \<open>\<^verbatim>\<open>.+@.+\<close>\<close>

definition EMAIL :: regex where
  "EMAIL = Seqs [Plus Dot, Chr CHR ''@'', Plus Dot]"

text \<open>\<^verbatim>\<open>\(\@${GITHUB_USERNAME}\)\<close>, the text of both capture groups of \<open>AUTHOR\<close>.\<close>

definition HANDLE :: regex where
  "HANDLE = Seqs [Chr CHR ''('', Chr CHR ''@'', GITHUB_USERNAME, Chr CHR '')'']"

text \<open>
  \<^verbatim>\<open>^\w[.\w\s]*(?: (?:<EMAIL>(?: (HANDLE))?)|(HANDLE))?$\<close>, where the source
  escapes the two angle brackets: the alternation is between a space followed by an
  e-mail in angle brackets, with an optional handle after a further space, and a
  handle on its own.
\<close>

definition AUTHOR :: regex where
  "AUTHOR =
     Seqs [Bol,
           Cls is_word,
           Star (Cls (\<lambda>c. c = CHR ''.'' \<or> is_word c \<or> is_space c)),
           Opt (Alt
                  (Seqs [Chr CHR '' '', Chr CHR ''<'', EMAIL, Chr CHR ''>'',
                         Opt (Seqs [Chr CHR '' '', Group 1 HANDLE])])
                  (Group 2 HANDLE)),
           Eol]"

subsection \<open>Dates\<close>

text \<open>What the rule reads of \<^verbatim>\<open>new Date()\<close>; \<open>getMonth\<close> counts from 0.\<close>

record js_date =
  getFullYear :: nat
  getMonth :: nat
  getDate :: nat

datatype fault = AssertionError | TypeError

text \<open>
  \<open>isValidDate\<close> on a string. The groups of a match are always defined, so the test
  for \<^verbatim>\<open>undefined\<close> groups never answers.
\<close>

definition isValidDate :: "js_date \<Rightarrow> string \<Rightarrow> bool" where
  "isValidDate now data =
     (case exec False ISO8601 3 data of
        None \<Rightarrow> False
      | Some result \<Rightarrow>
          (case (group result 1, group result 2, group result 3) of
             (Some year, Some month, Some day) \<Rightarrow>
               Number year \<le> getFullYear now
               \<and> Number month \<le> getMonth now + 1
               \<and> Number day \<le> getDate now
           | _ \<Rightarrow> False))"

text \<open>
  The call \<^verbatim>\<open>isValidDate(preamble[dateHeader] as string)\<close>: the cast checks nothing,
  and \<^verbatim>\<open>data.match\<close> on a value that is not a string is a \<open>TypeError\<close>.
\<close>

definition isValidDate_call :: "js_date \<Rightarrow> jsval option \<Rightarrow> fault + bool" where
  "isValidDate_call now v =
     (case v of Some (JStr s) \<Rightarrow> Inr (isValidDate now s) | _ \<Rightarrow> Inl TypeError)"

subsection \<open>Diagnostics\<close>

text \<open>One constructor for each message the rule passes to \<^verbatim>\<open>context.report\<close>.\<close>

datatype diagnostic =
    NotProperYAML
  | RequiredMissing string
  | UnknownHeader string
  | NotInOrder string
  | InvalidDate string
  | InvalidStatus
  | LivingWithoutUpdated
  | InvalidCategory
  | AuthorMalformed
  | AuthorNoGithub

definition quoted :: "string \<Rightarrow> string" where
  "quoted s = [CHR 0x22] @ s @ [CHR 0x22]"

fun message :: "diagnostic \<Rightarrow> string" where
  "message NotProperYAML = ''The front-matter is not proper YAML''"
| "message (RequiredMissing h) =
     ''Required header '' @ quoted h @ '' is missing from preamble.''"
| "message (UnknownHeader h) = ''Preamble has unknown header '' @ quoted h @ ''.''"
| "message (NotInOrder h) = ''Preamble header '' @ quoted h @ '' is not in proper order''"
| "message (InvalidDate h) =
     ''Preamble header '' @ quoted h @ '' is not a valid date in ISO 8601 format''"
| "message InvalidStatus = ''Header '' @ quoted ''status'' @ '' is not a valid status''"
| "message LivingWithoutUpdated =
     ''SIP has status of '' @ quoted ''living'' @ '' but doesn'' @ [CHR 0x27] @ ''t have ''
       @ quoted ''updated'' @ '' header''"
| "message InvalidCategory =
     ''Header '' @ quoted ''category'' @ '' is not a valid category''"
| "message AuthorMalformed = ''Preamble header '' @ quoted ''author'' @ '' is malformed''"
| "message AuthorNoGithub =
     ''Preamble header '' @ quoted ''author'' @ '' doesn'' @ [CHR 0x27]
       @ ''t have at least one github account''"

text \<open>
  What a part of the handler does: the reports it makes, then the exception that ends
  it, if any.
\<close>

type_synonym outcome = "diagnostic list \<times> fault option"

fun andthen :: "outcome \<Rightarrow> outcome \<Rightarrow> outcome" where
  "andthen (ds, Some f) next = (ds, Some f)"
| "andthen (ds, None) (es, f) = (ds @ es, f)"

definition reports :: "diagnostic list \<Rightarrow> outcome" where
  "reports ds = (ds, None)"

subsection \<open>Loading the preamble\<close>

datatype load_error =
    YAMLParseError
  | NotYAMLObject
  | WrongType string string string

text \<open>
  The loop of \<open>assertIsPreamble\<close> over \<^verbatim>\<open>Object.entries\<close>: the first header that
  \<open>HEADER_TYPES\<close> has and whose value is of another type throws.
\<close>

fun check_entries :: "(string \<times> jsval) list \<Rightarrow> load_error option" where
  "check_entries [] = None"
| "check_entries ((header, v) # es) =
     (if map_of HEADER_TYPES header \<noteq> None \<and> Some (typeof v) \<noteq> map_of HEADER_TYPES header
      then Some (WrongType header (typeof v) (the (map_of HEADER_TYPES header)))
      else check_entries es)"

fun as_object :: "jsval \<Rightarrow> jsobject option" where
  "as_object (JObj kvs) = Some (Plain kvs)"
| "as_object (JArr xs) = Some (Array xs)"
| "as_object v = None"

text \<open>
  \<open>assertIsPreamble\<close> throws or narrows the type of its argument; the narrowed value is
  the result here. An array is an object for \<^verbatim>\<open>typeof\<close>, and goes through.
\<close>

definition assertIsPreamble :: "jsval \<Rightarrow> load_error + jsobject" where
  "assertIsPreamble preamble =
     (if typeof preamble \<noteq> ''object'' \<or> preamble = JNull then Inl NotYAMLObject
      else case as_object preamble of
             None \<Rightarrow> Inl NotYAMLObject
           | Some ob \<Rightarrow>
               (case check_entries (own_entries ob) of
                  Some e \<Rightarrow> Inl e
                | None \<Rightarrow> Inr ob))"

text \<open>The body of the \<^verbatim>\<open>try\<close> block; \<open>parse\<close> is \<^verbatim>\<open>YAML.parse\<close>, \<open>None\<close> when it throws.\<close>

definition load_preamble :: "(string \<Rightarrow> jsval option) \<Rightarrow> string \<Rightarrow> load_error + jsobject" where
  "load_preamble parse text =
     (case parse text of None \<Rightarrow> Inl YAMLParseError | Some v \<Rightarrow> assertIsPreamble v)"

subsection \<open>The checks\<close>

text \<open>
  \<^verbatim>\<open>new Set(Object.keys(preamble))\<close>, in the order in which \<^verbatim>\<open>forEach\<close> visits it:
  the first occurrence of each key.
\<close>

fun insertion_order :: "string list \<Rightarrow> string list" where
  "insertion_order [] = []"
| "insertion_order (k # ks) = k # filter (\<lambda>x. x \<noteq> k) (insertion_order ks)"

definition check_required :: "string list \<Rightarrow> diagnostic list" where
  "check_required headers =
     map RequiredMissing (filter (\<lambda>required. required \<notin> set headers) HEADER_REQUIRED)"

definition check_unknown :: "string list \<Rightarrow> diagnostic list" where
  "check_unknown headers =
     map UnknownHeader (filter (\<lambda>header. header \<notin> set HEADER_ALL) headers)"

text \<open>
  \<^verbatim>\<open>HEADER_ORDER[orderIndex]\<close> (\<open>None\<close> for \<^verbatim>\<open>undefined\<close>, past the end) and the
  conversion of such a value to a property key or to text.
\<close>

definition HEADER_ORDER_at :: "nat \<Rightarrow> string option" where
  "HEADER_ORDER_at i = (if i < length HEADER_ORDER then Some (HEADER_ORDER ! i) else None)"

fun to_string :: "string option \<Rightarrow> string" where
  "to_string None = ''undefined''"
| "to_string (Some s) = s"

text \<open>
  The loop over \<open>orderedHeaders\<close>: \<open>arr\<close> is the whole array, the third argument what
  is left of it to visit.
\<close>

fun order_loop :: "string option list \<Rightarrow> nat \<Rightarrow> string option list \<Rightarrow> diagnostic list" where
  "order_loop arr orderIndex [] = []"
| "order_loop arr orderIndex (header # rest) =
     (if array_has_property (to_string (HEADER_ORDER_at orderIndex)) arr
         \<and> header \<noteq> HEADER_ORDER_at orderIndex
      then [NotInOrder (to_string header)]
      else order_loop arr (Suc orderIndex) rest)"

text \<open>\<^verbatim>\<open>HEADERS_REGEX.exec(node.value)?.slice(1) ?? []\<close>\<close>

definition orderedHeaders :: "string \<Rightarrow> string option list" where
  "orderedHeaders text =
     (case exec True HEADERS_REGEX 1 text of None \<Rightarrow> [] | Some m \<Rightarrow> drop 1 m)"

definition check_order :: "string \<Rightarrow> diagnostic list" where
  "check_order text = order_loop (orderedHeaders text) 0 (orderedHeaders text)"

fun check_dates :: "js_date \<Rightarrow> jsobject \<Rightarrow> string list \<Rightarrow> outcome" where
  "check_dates now preamble [] = ([], None)"
| "check_dates now preamble (dateHeader # rest) =
     (if has_property dateHeader preamble then
        (case isValidDate_call now (get_property preamble dateHeader) of
           Inl f \<Rightarrow> ([], Some f)
         | Inr ok \<Rightarrow>
             andthen (reports (if \<not> ok then [InvalidDate dateHeader] else []))
               (check_dates now preamble rest))
      else check_dates now preamble rest)"

text \<open>\<^verbatim>\<open>Set.prototype.has\<close> on a set of strings: no other value is a member.\<close>

fun set_has :: "string list \<Rightarrow> jsval \<Rightarrow> bool" where
  "set_has xs (JStr s) = (s \<in> set xs)"
| "set_has xs v = False"

definition check_status :: "jsobject \<Rightarrow> diagnostic list" where
  "check_status preamble =
     (case get_property preamble ''status'' of
        None \<Rightarrow> []
      | Some status \<Rightarrow> if \<not> set_has STATUES status then [InvalidStatus] else [])"

definition check_updated :: "jsobject \<Rightarrow> diagnostic list" where
  "check_updated preamble =
     (if get_property preamble ''status'' = Some (JStr ''living'')
         \<and> \<not> has_property ''updated'' preamble
      then [LivingWithoutUpdated] else [])"

definition check_category :: "jsobject \<Rightarrow> diagnostic list" where
  "check_category preamble =
     (case get_property preamble ''category'' of
        None \<Rightarrow> []
      | Some category \<Rightarrow> if \<not> set_has CATEGORIES category then [InvalidCategory] else [])"

text \<open>
  The loop over the authors, from the value of \<open>hasGithub\<close> so far: the reports, and
  \<open>hasGithub\<close> at the end of the loop.
\<close>

fun author_loop :: "string list \<Rightarrow> bool \<Rightarrow> diagnostic list \<times> bool" where
  "author_loop [] hasGithub = ([], hasGithub)"
| "author_loop (author # rest) hasGithub =
     (case exec False AUTHOR 2 (trim author) of
        None \<Rightarrow> ([AuthorMalformed], True)
      | Some m \<Rightarrow> author_loop rest (if length m \<ge> 2 then True else hasGithub))"

text \<open>
  \<^verbatim>\<open>(preamble.author as string).split(",")\<close> on a value that is not a string is a
  \<open>TypeError\<close>.
\<close>

definition check_author :: "jsobject \<Rightarrow> outcome" where
  "check_author preamble =
     (if has_property ''author'' preamble then
        (case get_property preamble ''author'' of
           Some (JStr author) \<Rightarrow>
             (case author_loop (split_comma author) False of
                (ds, hasGithub) \<Rightarrow> reports (ds @ (if \<not> hasGithub then [AuthorNoGithub] else [])))
         | _ \<Rightarrow> ([], Some TypeError))
      else reports [])"

subsection \<open>The handler\<close>

record ast_node =
  node_type :: string
  node_value :: string

text \<open>Everything after the \<^verbatim>\<open>try\<close> block, on the loaded preamble.\<close>

definition field_checks :: "js_date \<Rightarrow> string \<Rightarrow> jsobject \<Rightarrow> outcome" where
  "field_checks now text preamble =
     (let headers = insertion_order (own_keys preamble) in
      andthen (reports (check_required headers))
     (andthen (reports (check_unknown headers))
     (andthen (reports (check_order text))
     (andthen (check_dates now preamble HEADER_DATES)
     (andthen (reports (check_status preamble))
     (andthen (reports (check_updated preamble))
     (andthen (reports (check_category preamble))
              (check_author preamble))))))))"

text \<open>The handler \<^verbatim>\<open>yaml\<close> of the rule.\<close>

definition yaml :: "(string \<Rightarrow> jsval option) \<Rightarrow> js_date \<Rightarrow> ast_node \<Rightarrow> outcome" where
  "yaml parse now node =
     (if node_type node \<noteq> ''yaml'' then ([], Some AssertionError)
      else case load_preamble parse (node_value node) of
             Inl e \<Rightarrow> reports [NotProperYAML]
           | Inr preamble \<Rightarrow> field_checks now (node_value node) preamble)"

subsection \<open>The date pattern in words\<close>

text \<open>
  The specification's description of a well-formed date, to compare with \<open>ISO8601\<close>:
  four digits for the year, two for the month and two for the day, separated by
  hyphens, and nothing else.
\<close>

definition matches_date_pattern :: "string \<Rightarrow> bool" where
  "matches_date_pattern s =
     (length s = 10
      \<and> list_all is_digit (take 4 s) \<and> s ! 4 = CHR ''-''
      \<and> list_all is_digit (take 2 (drop 5 s)) \<and> s ! 7 = CHR ''-''
      \<and> list_all is_digit (drop 8 s))"

subsection \<open>Example inputs\<close>

text \<open>
  Decoders for the examples: one that returns the same value for every text, and one
  that always throws.
\<close>

definition decoded_as :: "jsval \<Rightarrow> string \<Rightarrow> jsval option" where
  "decoded_as v text = Some v"

definition undecodable :: "string \<Rightarrow> jsval option" where
  "undecodable text = None"

definition today :: js_date where
  "today = \<lparr>getFullYear = 2025, getMonth = 5, getDate = 15\<rparr>"

definition preamble_node :: "string \<Rightarrow> ast_node" where
  "preamble_node text = \<lparr>node_type = ''yaml'', node_value = text\<rparr>"

definition lines_text :: "string list \<Rightarrow> string" where
  "lines_text ls = concat (map (\<lambda>l. l @ [CHR 0x0A]) ls)"

text \<open>A preamble with every header, in the canonical order, and its decoding.\<close>

definition canonical_text :: string where
  "canonical_text =
     lines_text [''sip: 1'', ''title: Example'', ''status: Draft'', ''category: Core'',
                 ''author: Jane Doe (@janedoe)'', ''created: 2024-01-15'']"

definition canonical_value :: jsval where
  "canonical_value =
     JObj [(''sip'', JNum 1), (''title'', JStr ''Example''), (''status'', JStr ''Draft''),
           (''category'', JStr ''Core''), (''author'', JStr ''Jane Doe (@janedoe)''),
           (''created'', JStr ''2024-01-15'')]"

text \<open>The same preamble with its first two headers swapped.\<close>

definition swapped_text :: string where
  "swapped_text =
     lines_text [''title: Example'', ''sip: 1'', ''status: Draft'', ''category: Core'',
                 ''author: Jane Doe (@janedoe)'', ''created: 2024-01-15'']"

definition swapped_value :: jsval where
  "swapped_value =
     JObj [(''title'', JStr ''Example''), (''sip'', JNum 1), (''status'', JStr ''Draft''),
           (''category'', JStr ''Core''), (''author'', JStr ''Jane Doe (@janedoe)''),
           (''created'', JStr ''2024-01-15'')]"

text \<open>The canonical preamble with an author who gives no handle.\<close>

definition no_handle_text :: string where
  "no_handle_text =
     lines_text [''sip: 1'', ''title: Example'', ''status: Draft'', ''category: Core'',
                 ''author: Jane Doe'', ''created: 2024-01-15'']"

definition no_handle_value :: jsval where
  "no_handle_value =
     JObj [(''sip'', JNum 1), (''title'', JStr ''Example''), (''status'', JStr ''Draft''),
           (''category'', JStr ''Core''), (''author'', JStr ''Jane Doe''),
           (''created'', JStr ''2024-01-15'')]"

text \<open>The canonical preamble with a number for its category.\<close>

definition numeric_category_text :: string where
  "numeric_category_text =
     lines_text [''sip: 1'', ''title: Example'', ''status: Draft'', ''category: 5'',
                 ''author: Jane Doe (@janedoe)'', ''created: 2024-01-15'']"

definition numeric_category_entries :: "(string \<times> jsval) list" where
  "numeric_category_entries =
     [(''sip'', JNum 1), (''title'', JStr ''Example''), (''status'', JStr ''Draft''),
      (''category'', JNum 5), (''author'', JStr ''Jane Doe (@janedoe)''),
      (''created'', JStr ''2024-01-15'')]"

definition numeric_category_value :: jsval where
  "numeric_category_value = JObj numeric_category_entries"

text \<open>The canonical preamble with a string for its number.\<close>

definition string_sip_value :: jsval where
  "string_sip_value =
     JObj [(''sip'', JStr ''one''), (''title'', JStr ''Example''), (''status'', JStr ''Draft''),
           (''category'', JStr ''Core''), (''author'', JStr ''Jane Doe (@janedoe)''),
           (''created'', JStr ''2024-01-15'')]"

text \<open>A front-matter that is a YAML sequence, and its decoding.\<close>

definition sequence_text :: string where
  "sequence_text = lines_text [''- sip'', ''- title'']"

definition sequence_value :: jsval where
  "sequence_value = JArr [JStr ''sip'', JStr ''title'']"

text \<open>
  A preamble of status \<^verbatim>\<open>living\<close> without the header \<^verbatim>\<open>updated\<close>, with a date in
  the future and with a malformed author between two well-formed ones.
\<close>

definition living_value :: jsval where
  "living_value =
     JObj [(''sip'', JNum 1), (''title'', JStr ''Example''), (''status'', JStr ''living''),
           (''author'', JStr ''Jane Doe (@janedoe), ###bad###, John Roe''),
           (''created'', JStr ''2099-01-01'')]"

definition living_text :: string where
  "living_text =
     lines_text [''sip: 1'', ''title: Example'', ''status: living'',
                 ''author: Jane Doe (@janedoe), ###bad###, John Roe'',
                 ''created: 2099-01-01'']"

section \<open>Properties of the model\<close>

subsection \<open>Property keys of arrays\<close>

lemma string_of_nat_digits: "c \<in> set (string_of_nat n) \<Longrightarrow> is_digit c"
proof (induction n rule: string_of_nat.induct)
  case (1 n)
  have d: "is_digit (digit_char n)"
    unfolding is_digit_def digit_char_def by (rule nth_mem) simp
  show ?case
  proof (cases "n < 10")
    case True
    then have "string_of_nat n = [digit_char n]" by (subst string_of_nat.simps) simp
    with "1.prems" d show ?thesis by simp
  next
    case False
    then have "string_of_nat n = string_of_nat (n div 10) @ [digit_char n]"
      by (subst string_of_nat.simps) simp
    with "1.prems" have "c \<in> set (string_of_nat (n div 10)) \<or> c = digit_char n" by auto
    then show ?thesis using "1.IH" [OF False] d by blast
  qed
qed

lemma not_index_key:
  assumes "c \<in> set k" and "\<not> is_digit c"
  shows "k \<notin> set (map string_of_nat [0..<n])"
proof
  assume "k \<in> set (map string_of_nat [0..<n])"
  then obtain i where "k = string_of_nat i" by auto
  with assms string_of_nat_digits [of c i] show False by simp
qed

lemma header_has_letter:
  assumes "k \<in> set HEADER_ORDER \<or> k = ''undefined''"
  shows "\<exists>c \<in> set k. \<not> is_digit c"
proof -
  from assms have "hd k \<in> set k \<and> \<not> is_digit (hd k)"
    unfolding HEADER_ORDER_def is_digit_def by (elim disjE) auto
  then show ?thesis by blast
qed

lemma header_not_inherited:
  assumes "k \<in> set HEADER_ORDER \<or> k = ''undefined''"
  shows "k \<noteq> ''length''" and "k \<notin> set Array_prototype_keys"
    and "k \<notin> set Object_prototype_keys"
  using assms
  unfolding HEADER_ORDER_def Array_prototype_keys_def Object_prototype_keys_def
  by (elim disjE; simp; elim disjE; simp)+


lemma header_not_array_property:
  assumes "k \<in> set HEADER_ORDER \<or> k = ''undefined''"
  shows "\<not> array_has_property k xs"
proof -
  from header_has_letter [OF assms] have "k \<notin> set (map string_of_nat [0..<length xs])"
    using not_index_key by blast
  with header_not_inherited [OF assms] show ?thesis
    unfolding array_has_property_def by blast
qed

lemma HEADER_ORDER_at_cases:
  "to_string (HEADER_ORDER_at i) \<in> set HEADER_ORDER \<or> to_string (HEADER_ORDER_at i) = ''undefined''"
  unfolding HEADER_ORDER_at_def by (cases "i < length HEADER_ORDER") simp_all

lemma order_loop_silent: "order_loop arr i rest = []"
proof (induction rest arbitrary: i)
  case Nil
  show ?case by simp
next
  case (Cons header rest)
  have "\<not> array_has_property (to_string (HEADER_ORDER_at i)) arr"
    using HEADER_ORDER_at_cases by (rule header_not_array_property)
  with Cons.IH show ?case by simp
qed

subsection \<open>Match arrays\<close>

text \<open>Matching never changes the number of slots of the capture array.\<close>

lemma rmatch_repeat_caps:
  assumes "\<And>st st'. st' \<in> set (f st) \<Longrightarrow> length (fst st') = length (fst st)"
  shows "st' \<in> set (repeat_upto f n st) \<Longrightarrow> length (fst st') = length (fst st)"
proof (induction n arbitrary: st)
  case 0
  then show ?case by simp
next
  case (Suc n)
  from Suc.prems consider "st' = st"
    | mid where "mid \<in> set (f st)" and "st' \<in> set (repeat_upto f n mid)"
    by auto
  then show ?case
  proof cases
    case 1
    then show ?thesis by simp
  next
    case 2
    then show ?thesis using Suc.IH [of mid] assms [of mid st] by simp
  qed
qed

lemma rmatch_caps:
  "st' \<in> set (rmatch ml re st) \<Longrightarrow> length (fst st') = length (fst st)"
proof (induction ml re st arbitrary: st' rule: rmatch.induct)
  case (1 ml st)
  then show ?case by simp
next
  case (2 ml c g p r)
  then show ?case by (cases r) (simp_all split: if_splits)
next
  case (3 ml P g p r)
  then show ?case by (cases r) (simp_all split: if_splits)
next
  case (4 ml a b st)
  from "4.prems" obtain mid where mid: "mid \<in> set (rmatch ml a st)" "st' \<in> set (rmatch ml b mid)"
    by auto
  from "4.IH"(1) [OF mid(1)] "4.IH"(2) [OF mid] show ?case by simp
next
  case (5 ml a b st)
  from "5.prems" have "st' \<in> set (rmatch ml a st) \<or> st' \<in> set (rmatch ml b st)" by simp
  then show ?case using "5.IH" by blast
next
  case (6 ml n a st)
  from "6.prems" have "st' \<in> set (repeat_upto (rmatch ml a) n st)" by simp
  then show ?case using rmatch_repeat_caps [of "rmatch ml a" st' n st] "6.IH" by blast
next
  case (7 ml a g p r)
  from "7.prems" have "st' \<in> set (repeat_upto (rmatch ml a) (length r) (g, p, r))" by simp
  then show ?case using rmatch_repeat_caps [of "rmatch ml a" st' "length r" "(g, p, r)"] "7.IH"
    by blast
next
  case (8 ml i a g p r)
  from "8.prems" obtain g' p' r' where
    mid: "(g', p', r') \<in> set (rmatch ml a (g, p, r))"
    and st': "st' = (g'[i := Some (take (length r - length r') r)], p', r')"
    by auto
  from "8.IH" [OF mid] st' show ?case by simp
next
  case (9 ml a g p r)
  show ?case
  proof (cases "rmatch ml a (g, p, r)")
    case Nil
    with "9.prems" show ?thesis by simp
  next
    case (Cons x xs)
    obtain g' p' r' where x: "x = (g', p', r')" by (cases x)
    with Cons have "(g', p', r') \<in> set (rmatch ml a (g, p, r))" by simp
    from "9.IH" [OF this] have "length g' = length g" by simp
    moreover from "9.prems" Cons x have "st' = (g', p, r)" by simp
    ultimately show ?thesis by simp
  qed
next
  case (10 ml g p r)
  then show ?case by (simp split: if_splits)
next
  case (11 ml g p r)
  then show ?case by (simp split: if_splits)
qed

lemma rmatch_head_caps:
  "rmatch ml re (g, p, r) = (g', p', r') # rest \<Longrightarrow> length g' = length g"
  using rmatch_caps [of "(g', p', r')" ml re "(g, p, r)"] by simp

lemma exec_from_length: "exec_from ml re n p r = Some m \<Longrightarrow> length m = Suc n"
proof (induction r arbitrary: p)
  case Nil
  then show ?case
    by (auto split: list.splits dest: rmatch_head_caps)
next
  case (Cons x xs)
  then show ?case
    by (auto split: list.splits dest: rmatch_head_caps)
qed

lemma exec_length: "exec ml re n s = Some m \<Longrightarrow> length m = Suc n"
  unfolding exec_def by (rule exec_from_length)

lemma author_loop_hasGithub: "authors \<noteq> [] \<or> b \<Longrightarrow> snd (author_loop authors b)"
proof (induction authors arbitrary: b)
  case Nil
  then show ?case by simp
next
  case (Cons a as)
  show ?case
  proof (cases "exec False AUTHOR 2 (trim a)")
    case None
    then show ?thesis by simp
  next
    case (Some m)
    then have "length m = 3" using exec_length by fastforce
    with Some Cons.IH [of True] show ?thesis by simp
  qed
qed

lemma author_loop_reports: "set (fst (author_loop authors b)) \<subseteq> {AuthorMalformed}"
  by (induction authors arbitrary: b) (auto split: option.splits)

lemma split_comma_nonempty: "split_comma s \<noteq> []"
  by (induction s) (auto split: list.splits)

subsection \<open>The loaded preamble\<close>

text \<open>
  What \<open>assertIsPreamble\<close> establishes, and what the checks after it do on a preamble
  that went through it: none of them throws.
\<close>

lemma andthen_reports: "andthen (reports ds) out = (ds @ fst out, snd out)"
  by (cases out) (simp add: reports_def)

lemma typeof_string: "typeof v = ''string'' \<Longrightarrow> \<exists>s. v = JStr s"
  by (cases v) simp_all

lemma check_entries_None:
  "check_entries es = None \<Longrightarrow> (h, v) \<in> set es \<Longrightarrow> map_of HEADER_TYPES h = Some t \<Longrightarrow> typeof v = t"
proof (induction es)
  case Nil
  then show ?case by simp
next
  case (Cons e es)
  obtain h' v' where e: "e = (h', v')" by (cases e)
  from Cons.prems(1) e have here: "map_of HEADER_TYPES h' = None \<or> Some (typeof v') = map_of HEADER_TYPES h'"
    and rest: "check_entries es = None"
    by (simp_all split: if_splits)
  from Cons.prems(2) e consider "h = h'" "v = v'" | "(h, v) \<in> set es" by auto
  then show ?case
  proof cases
    case 1
    with here Cons.prems(3) show ?thesis by auto
  next
    case 2
    with Cons.IH rest Cons.prems(3) show ?thesis by simp
  qed
qed

lemma check_entries_Some:
  "(h, v) \<in> set es \<Longrightarrow> map_of HEADER_TYPES h = Some t \<Longrightarrow> typeof v \<noteq> t \<Longrightarrow> check_entries es \<noteq> None"
  using check_entries_None by (cases "check_entries es") blast+

lemma own_keys_Array: "own_keys (Array xs) = map string_of_nat [0..<length xs]"
  by (simp add: own_keys_def)

lemma has_property_own:
  assumes "k \<in> set HEADER_ORDER"
  shows "has_property k ob = (k \<in> set (own_keys ob))"
proof (cases ob)
  case (Plain kvs)
  with header_not_inherited(3) [of k] assms show ?thesis by (simp add: own_keys_def)
next
  case (Array xs)
  from assms have "\<not> array_has_property k xs" by (simp add: header_not_array_property)
  moreover from header_has_letter [of k] assms have "k \<notin> set (map string_of_nat [0..<length xs])"
    using not_index_key by blast
  ultimately show ?thesis using Array by (simp add: own_keys_Array)
qed

lemma get_property_own:
  "k \<in> set (own_keys ob) \<Longrightarrow> \<exists>v. get_property ob k = Some v \<and> (k, v) \<in> set (own_entries ob)"
  unfolding own_keys_def get_property_def
  by (metis map_of_SomeD map_of_eq_None_iff not_None_eq set_map)

lemma get_property_absent: "k \<notin> set (own_keys ob) \<Longrightarrow> get_property ob k = None"
  unfolding own_keys_def get_property_def by (simp add: map_of_eq_None_iff)

lemma assertIsPreamble_Inr:
  "assertIsPreamble v = Inr ob \<Longrightarrow> as_object v = Some ob \<and> check_entries (own_entries ob) = None"
  unfolding assertIsPreamble_def by (auto split: if_splits option.splits)

lemma loaded_string:
  assumes "assertIsPreamble v = Inr ob"
    and "k \<in> {''title'', ''status'', ''author'', ''created'', ''updated''}"
    and "k \<in> set (own_keys ob)"
  shows "\<exists>s. get_property ob k = Some (JStr s)"
proof -
  from get_property_own [OF assms(3)] obtain x where
    x: "get_property ob k = Some x" "(k, x) \<in> set (own_entries ob)" by blast
  from assms(2) have "map_of HEADER_TYPES k = Some ''string''"
    by (auto simp add: HEADER_TYPES_def)
  with check_entries_None [OF _ x(2)] assertIsPreamble_Inr [OF assms(1)]
  have "typeof x = ''string''" by blast
  with typeof_string x(1) show ?thesis by blast
qed

lemma check_dates_loaded:
  assumes "assertIsPreamble v = Inr ob" and "set hs \<subseteq> set HEADER_DATES"
  shows "check_dates now ob hs =
    (map InvalidDate
       (filter (\<lambda>h. \<exists>s. get_property ob h = Some (JStr s) \<and> \<not> isValidDate now s) hs), None)"
  using assms(2)
proof (induction hs)
  case Nil
  show ?case by simp
next
  case (Cons h hs)
  from Cons.prems have h: "h \<in> set HEADER_ORDER" "h \<in> {''title'', ''status'', ''author'', ''created'', ''updated''}"
    by (auto simp add: HEADER_DATES_def HEADER_ORDER_def)
  from Cons have IH: "check_dates now ob hs =
    (map InvalidDate
       (filter (\<lambda>h. \<exists>s. get_property ob h = Some (JStr s) \<and> \<not> isValidDate now s) hs), None)"
    by simp
  show ?case
  proof (cases "h \<in> set (own_keys ob)")
    case True
    from loaded_string [OF assms(1) h(2) True] obtain s where "get_property ob h = Some (JStr s)" ..
    with True has_property_own [OF h(1)] IH show ?thesis
      by (simp add: isValidDate_call_def reports_def)
  next
    case False
    with has_property_own [OF h(1)] get_property_absent IH show ?thesis by simp
  qed
qed

lemma check_author_loaded:
  assumes "assertIsPreamble v = Inr ob"
  shows "check_author ob =
    (case get_property ob ''author'' of
       Some (JStr author) \<Rightarrow> fst (author_loop (split_comma author) False)
     | _ \<Rightarrow> [], None)"
proof (cases "''author'' \<in> set (own_keys ob)")
  case True
  from loaded_string [OF assms _ True] obtain s where s: "get_property ob ''author'' = Some (JStr s)"
    by auto
  have "snd (author_loop (split_comma s) False)"
    by (rule author_loop_hasGithub) (simp add: split_comma_nonempty)
  then obtain ds where "author_loop (split_comma s) False = (ds, True)"
    by (cases "author_loop (split_comma s) False") simp
  with s True has_property_own [of "''author''" ob] show ?thesis
    by (simp add: check_author_def HEADER_ORDER_def reports_def)
next
  case False
  with has_property_own [of "''author''" ob] get_property_absent [OF False] show ?thesis
    by (simp add: check_author_def HEADER_ORDER_def reports_def)
qed

lemma field_checks_loaded:
  assumes "assertIsPreamble v = Inr ob"
  shows "field_checks now text ob =
    (check_required (insertion_order (own_keys ob))
     @ check_unknown (insertion_order (own_keys ob))
     @ check_order text
     @ map InvalidDate
         (filter (\<lambda>h. \<exists>s. get_property ob h = Some (JStr s) \<and> \<not> isValidDate now s) HEADER_DATES)
     @ check_status ob @ check_updated ob @ check_category ob
     @ fst (check_author ob), None)"
proof -
  have "snd (check_author ob) = None" by (simp add: check_author_loaded [OF assms])
  then show ?thesis
    unfolding field_checks_def Let_def andthen_reports
    by (simp add: check_dates_loaded [OF assms subset_refl] reports_def)
qed

subsection \<open>The handler on a loaded preamble\<close>

lemma load_preamble_Inr:
  "load_preamble parse text = Inr ob \<Longrightarrow> \<exists>v. parse text = Some v \<and> assertIsPreamble v = Inr ob"
  unfolding load_preamble_def by (cases "parse text") simp_all

lemma yaml_loaded:
  assumes "node_type node = ''yaml''" and "load_preamble parse (node_value node) = Inr ob"
  shows "yaml parse now node =
    (check_required (insertion_order (own_keys ob))
     @ check_unknown (insertion_order (own_keys ob))
     @ check_order (node_value node)
     @ map InvalidDate
         (filter (\<lambda>h. \<exists>s. get_property ob h = Some (JStr s) \<and> \<not> isValidDate now s) HEADER_DATES)
     @ check_status ob @ check_updated ob @ check_category ob
     @ fst (check_author ob), None)"
proof -
  from load_preamble_Inr [OF assms(2)] obtain v where "assertIsPreamble v = Inr ob" by blast
  from field_checks_loaded [OF this] assms show ?thesis by (simp add: yaml_def)
qed

lemma yaml_not_loaded:
  assumes "node_type node = ''yaml''" and "load_preamble parse (node_value node) = Inl e"
  shows "yaml parse now node = ([NotProperYAML], None)"
  using assms by (simp add: yaml_def reports_def)

lemma check_order_silent: "check_order text = []"
  by (simp add: check_order_def order_loop_silent)

lemma check_author_reports:
  assumes "assertIsPreamble v = Inr ob"
  shows "set (fst (check_author ob)) \<subseteq> {AuthorMalformed}"
proof (cases "get_property ob ''author''")
  case None
  then show ?thesis by (simp add: check_author_loaded [OF assms])
next
  case (Some x)
  then show ?thesis
    using author_loop_reports by (cases x) (simp_all add: check_author_loaded [OF assms])
qed

lemma orderedHeaders_length: "length (orderedHeaders text) \<le> 1"
proof (cases "exec True HEADERS_REGEX 1 text")
  case None
  then show ?thesis by (simp add: orderedHeaders_def)
next
  case (Some m)
  from exec_length [OF Some] Some show ?thesis by (simp add: orderedHeaders_def)
qed

text \<open>The reports of the handler, kind by kind.\<close>

lemma yaml_reports:
  "set (fst (yaml parse now node)) \<subseteq>
     {NotProperYAML, InvalidStatus, LivingWithoutUpdated, InvalidCategory, AuthorMalformed}
     \<union> range RequiredMissing \<union> range UnknownHeader \<union> range InvalidDate"
proof (cases "node_type node = ''yaml''")
  case False
  then show ?thesis by (simp add: yaml_def)
next
  case True
  show ?thesis
  proof (cases "load_preamble parse (node_value node)")
    case (Inl e)
    from yaml_not_loaded [OF True Inl] show ?thesis by simp
  next
    case (Inr ob)
    from load_preamble_Inr [OF Inr] obtain v where v: "assertIsPreamble v = Inr ob" by blast
    have "set (check_status ob) \<subseteq> {InvalidStatus}"
      by (auto simp add: check_status_def split: option.splits)
    moreover have "set (check_updated ob) \<subseteq> {LivingWithoutUpdated}"
      by (auto simp add: check_updated_def)
    moreover have "set (check_category ob) \<subseteq> {InvalidCategory}"
      by (auto simp add: check_category_def split: option.splits)
    moreover have "set (check_required (insertion_order (own_keys ob))) \<subseteq> range RequiredMissing"
      by (auto simp add: check_required_def)
    moreover have "set (check_unknown (insertion_order (own_keys ob))) \<subseteq> range UnknownHeader"
      by (auto simp add: check_unknown_def)
    moreover note check_author_reports [OF v]
    ultimately show ?thesis
      unfolding yaml_loaded [OF True Inr] check_order_silent by auto
  qed
qed

text \<open>
  C10. Whatever the input, the handler never reports a header out of order: the
  pattern has no flag \<^verbatim>\<open>g\<close>, so at most one header is extracted, and the guard asks
  whether the expected header name is a property key of the array of extracted
  headers, which it never is.
\<close>

theorem order_diagnostic_unreachable:
  "NotInOrder h \<notin> set (fst (yaml parse now node))
   \<and> check_order text = []
   \<and> length (orderedHeaders text) \<le> 1
   \<and> \<not> array_has_property (to_string (HEADER_ORDER_at i)) arr"
proof -
  have "NotInOrder h \<notin> set (fst (yaml parse now node))"
    using yaml_reports [of parse now node] by auto
  moreover have "\<not> array_has_property (to_string (HEADER_ORDER_at i)) arr"
    using HEADER_ORDER_at_cases by (rule header_not_array_property)
  ultimately show ?thesis
    using check_order_silent orderedHeaders_length by simp
qed

theorem order_diagnostic_unreachable_witness:
  "NotInOrder ''title'' \<notin> set (fst (yaml (decoded_as swapped_value) today (preamble_node swapped_text)))
   \<and> check_order swapped_text = []
   \<and> orderedHeaders swapped_text = [Some ''title'']
   \<and> \<not> array_has_property ''sip'' [Some ''title'']"
proof -
  have "orderedHeaders swapped_text = [Some ''title'']" by code_simp
  moreover have "to_string (HEADER_ORDER_at 0) = ''sip''" by code_simp
  ultimately show ?thesis
    using order_diagnostic_unreachable
      [of "''title''" "decoded_as swapped_value" today "preamble_node swapped_text" swapped_text 0
        "[Some ''title'']"]
    by simp
qed

text \<open>
  C9. On a node of type \<^verbatim>\<open>yaml\<close> the handler returns normally, whatever the text and
  whatever it decodes to: no exception leaves it, and all it does is report.
\<close>

theorem yaml_never_throws:
  "node_type node = ''yaml'' \<Longrightarrow> snd (yaml parse now node) = None"
proof -
  assume t: "node_type node = ''yaml''"
  show ?thesis
  proof (cases "load_preamble parse (node_value node)")
    case (Inl e)
    from yaml_not_loaded [OF t Inl] show ?thesis by simp
  next
    case (Inr ob)
    from yaml_loaded [OF t Inr] show ?thesis by simp
  qed
qed

theorem yaml_never_throws_witness:
  "node_type (preamble_node living_text) = ''yaml''
   \<and> snd (yaml (decoded_as living_value) today (preamble_node living_text)) = None
   \<and> snd (yaml undecodable today (preamble_node living_text)) = None"
proof -
  have t: "node_type (preamble_node living_text) = ''yaml''" by (simp add: preamble_node_def)
  from yaml_never_throws [OF t] t show ?thesis by simp
qed

subsection \<open>The loader\<close>

lemma check_entries_offender:
  "check_entries es \<noteq> None \<Longrightarrow>
     \<exists>(h, x) \<in> set es. \<exists>t. map_of HEADER_TYPES h = Some t \<and> typeof x \<noteq> t"
proof (induction es)
  case Nil
  then show ?case by simp
next
  case (Cons e es)
  obtain h x where e: "e = (h, x)" by (cases e)
  show ?case
  proof (cases "map_of HEADER_TYPES h \<noteq> None \<and> Some (typeof x) \<noteq> map_of HEADER_TYPES h")
    case True
    then obtain t where "map_of HEADER_TYPES h = Some t" "typeof x \<noteq> t" by auto
    with e show ?thesis by auto
  next
    case False
    with Cons.prems e have "check_entries es \<noteq> None" by auto
    from Cons.IH [OF this] show ?thesis by auto
  qed
qed

lemma check_entries_None_iff:
  "check_entries es = None \<longleftrightarrow>
     (\<forall>(h, x) \<in> set es. \<forall>t. map_of HEADER_TYPES h = Some t \<longrightarrow> typeof x = t)"
  using check_entries_offender [of es] check_entries_None [of es] by blast

lemma as_object_Some: "as_object v = Some ob \<Longrightarrow> typeof v = ''object'' \<and> v \<noteq> JNull"
  by (cases v) simp_all

lemma as_object_None: "as_object v = None \<longleftrightarrow> typeof v \<noteq> ''object'' \<or> v = JNull"
  by (cases v) simp_all

lemma assertIsPreamble_object:
  assumes "as_object v = Some ob"
  shows "assertIsPreamble v =
    (case check_entries (own_entries ob) of Some e \<Rightarrow> Inl e | None \<Rightarrow> Inr ob)"
  using assms as_object_Some [OF assms] by (simp add: assertIsPreamble_def)

lemma assertIsPreamble_not_object:
  assumes "typeof v \<noteq> ''object'' \<or> v = JNull"
  shows "assertIsPreamble v = Inl NotYAMLObject"
  using assms by (auto simp add: assertIsPreamble_def)

text \<open>
  What the loader does reject. When the text of a \<^verbatim>\<open>yaml\<close> node cannot be decoded,
  or decodes to null or to a value that is not an object for \<^verbatim>\<open>typeof\<close> (a boolean,
  a number, a string), the handler makes one report, that the front-matter is not
  proper YAML, and nothing else.
\<close>

lemma undecodable_front_matter_reported:
  assumes "node_type node = ''yaml''"
    and "parse (node_value node) = None
         \<or> (\<exists>v. parse (node_value node) = Some v \<and> (typeof v \<noteq> ''object'' \<or> v = JNull))"
  shows "yaml parse now node = ([NotProperYAML], None)"
proof -
  from assms(2) have "\<exists>e. load_preamble parse (node_value node) = Inl e"
  proof
    assume "parse (node_value node) = None"
    then show ?thesis by (simp add: load_preamble_def)
  next
    assume "\<exists>v. parse (node_value node) = Some v \<and> (typeof v \<noteq> ''object'' \<or> v = JNull)"
    then obtain v where "parse (node_value node) = Some v" "typeof v \<noteq> ''object'' \<or> v = JNull"
      by blast
    with assertIsPreamble_not_object [of v] show ?thesis by (simp add: load_preamble_def)
  qed
  then obtain e where "load_preamble parse (node_value node) = Inl e" ..
  from yaml_not_loaded [OF assms(1) this] show ?thesis .
qed

lemma undecodable_front_matter_reported_example:
  "yaml undecodable today (preamble_node sequence_text) = ([NotProperYAML], None)
   \<and> yaml (decoded_as JNull) today (preamble_node sequence_text) = ([NotProperYAML], None)
   \<and> yaml (decoded_as (JStr ''sip'')) today (preamble_node sequence_text) = ([NotProperYAML], None)"
proof -
  have t: "node_type (preamble_node sequence_text) = ''yaml''" by (simp add: preamble_node_def)
  have a: "undecodable (node_value (preamble_node sequence_text)) = None
           \<or> (\<exists>v. undecodable (node_value (preamble_node sequence_text)) = Some v
                  \<and> (typeof v \<noteq> ''object'' \<or> v = JNull))"
    by (simp add: undecodable_def)
  have b: "decoded_as JNull (node_value (preamble_node sequence_text)) = None
           \<or> (\<exists>v. decoded_as JNull (node_value (preamble_node sequence_text)) = Some v
                  \<and> (typeof v \<noteq> ''object'' \<or> v = JNull))"
    by (simp add: decoded_as_def)
  have c: "decoded_as (JStr ''sip'') (node_value (preamble_node sequence_text)) = None
           \<or> (\<exists>v. decoded_as (JStr ''sip'') (node_value (preamble_node sequence_text)) = Some v
                  \<and> (typeof v \<noteq> ''object'' \<or> v = JNull))"
    by (simp add: decoded_as_def)
  note inst = undecodable_front_matter_reported [where node = "preamble_node sequence_text" and now = today]
  from inst [where parse = undecodable, OF t a] inst [where parse = "decoded_as JNull", OF t b]
    inst [where parse = "decoded_as (JStr ''sip'')", OF t c]
  show ?thesis by simp
qed

text \<open>
  C3, on the code as it is. A front-matter that decodes to an array is not rejected:
  \<open>assertIsPreamble\<close>, which throws \<^verbatim>\<open>Preamble is not YAML object\<close> for every other
  value that is not a mapping and sets null apart, lets an array through, because
  \<^verbatim>\<open>typeof\<close> says \<^verbatim>\<open>object\<close> of it too. The checks of the headers then run on the
  array with its indices for keys, and the handler makes eight reports, none of them
  that the front-matter is not proper YAML, where one such report and nothing else is
  due.
\<close>

theorem array_front_matter_not_rejected:
  "typeof sequence_value = ''object''
   \<and> load_preamble (decoded_as sequence_value) sequence_text
       = Inr (Array [JStr ''sip'', JStr ''title''])
   \<and> yaml (decoded_as sequence_value) today (preamble_node sequence_text) =
     ([RequiredMissing ''sip'', RequiredMissing ''title'', RequiredMissing ''status'',
       RequiredMissing ''category'', RequiredMissing ''author'', RequiredMissing ''created'',
       UnknownHeader ''0'', UnknownHeader ''1''], None)
   \<and> yaml (decoded_as sequence_value) today (preamble_node sequence_text)
       \<noteq> ([NotProperYAML], None)"
  by code_simp

text \<open>
  What the loader does check. On a decoded object, it compares the type of each header
  that \<open>HEADER_TYPES\<close> has, which are \<^verbatim>\<open>sip\<close> (a number), \<^verbatim>\<open>title\<close>, \<^verbatim>\<open>status\<close>,
  \<^verbatim>\<open>author\<close>, \<^verbatim>\<open>created\<close> and \<^verbatim>\<open>updated\<close> (strings): it succeeds exactly when each
  of them that is present has its listed type, and when one has not, the handler makes
  the one report that the front-matter is not proper YAML and runs no other check.
\<close>

lemma typed_headers_checked:
  assumes "node_type node = ''yaml''"
    and "parse (node_value node) = Some v"
    and "as_object v = Some ob"
  shows "(load_preamble parse (node_value node) = Inr ob \<longleftrightarrow>
            (\<forall>(h, x) \<in> set (own_entries ob). \<forall>t. map_of HEADER_TYPES h = Some t \<longrightarrow> typeof x = t))
       \<and> ((\<exists>(h, x) \<in> set (own_entries ob). \<exists>t. map_of HEADER_TYPES h = Some t \<and> typeof x \<noteq> t)
            \<longrightarrow> yaml parse now node = ([NotProperYAML], None))
       \<and> map fst HEADER_TYPES = [''sip'', ''title'', ''status'', ''author'', ''created'', ''updated'']
       \<and> map_of HEADER_TYPES ''sip'' = Some ''number''"
proof -
  have load: "load_preamble parse (node_value node) =
      (case check_entries (own_entries ob) of Some e \<Rightarrow> Inl e | None \<Rightarrow> Inr ob)"
    using assms(2) assertIsPreamble_object [OF assms(3)] by (simp add: load_preamble_def)
  have "load_preamble parse (node_value node) = Inr ob \<longleftrightarrow> check_entries (own_entries ob) = None"
    unfolding load by (cases "check_entries (own_entries ob)") simp_all
  then have first: "load_preamble parse (node_value node) = Inr ob \<longleftrightarrow>
      (\<forall>(h, x) \<in> set (own_entries ob). \<forall>t. map_of HEADER_TYPES h = Some t \<longrightarrow> typeof x = t)"
    by (simp only: check_entries_None_iff)
  have second: "yaml parse now node = ([NotProperYAML], None)"
    if "\<exists>(h, x) \<in> set (own_entries ob). \<exists>t. map_of HEADER_TYPES h = Some t \<and> typeof x \<noteq> t"
  proof -
    from that have "check_entries (own_entries ob) \<noteq> None"
      using check_entries_None_iff [of "own_entries ob"] by blast
    then obtain e where "check_entries (own_entries ob) = Some e" by blast
    with load have "load_preamble parse (node_value node) = Inl e" by simp
    from yaml_not_loaded [OF assms(1) this] show ?thesis .
  qed
  have third: "map fst HEADER_TYPES = [''sip'', ''title'', ''status'', ''author'', ''created'', ''updated'']"
    "map_of HEADER_TYPES ''sip'' = Some ''number''"
    by (simp_all add: HEADER_TYPES_def)
  from first second third show ?thesis by blast
qed

lemma typed_headers_checked_example:
  "yaml (decoded_as string_sip_value) today (preamble_node canonical_text) = ([NotProperYAML], None)
   \<and> load_preamble (decoded_as canonical_value) canonical_text
       = Inr (Plain (own_entries (Plain [(''sip'', JNum 1), (''title'', JStr ''Example''),
           (''status'', JStr ''Draft''), (''category'', JStr ''Core''),
           (''author'', JStr ''Jane Doe (@janedoe)''), (''created'', JStr ''2024-01-15'')])))"
proof -
  let ?ob = "Plain [(''sip'', JStr ''one''), (''title'', JStr ''Example''),
    (''status'', JStr ''Draft''), (''category'', JStr ''Core''),
    (''author'', JStr ''Jane Doe (@janedoe)''), (''created'', JStr ''2024-01-15'')]"
  let ?ok = "Plain [(''sip'', JNum 1), (''title'', JStr ''Example''),
    (''status'', JStr ''Draft''), (''category'', JStr ''Core''),
    (''author'', JStr ''Jane Doe (@janedoe)''), (''created'', JStr ''2024-01-15'')]"
  have t: "node_type (preamble_node canonical_text) = ''yaml''" by (simp add: preamble_node_def)
  have p: "decoded_as string_sip_value (node_value (preamble_node canonical_text)) = Some string_sip_value"
    by (simp add: decoded_as_def)
  have o: "as_object string_sip_value = Some ?ob" by (simp add: string_sip_value_def)
  have bad: "\<exists>(h, x) \<in> set (own_entries ?ob). \<exists>t. map_of HEADER_TYPES h = Some t \<and> typeof x \<noteq> t"
    by (simp add: HEADER_TYPES_def)
  have p': "decoded_as canonical_value (node_value (preamble_node canonical_text)) = Some canonical_value"
    by (simp add: decoded_as_def)
  have o': "as_object canonical_value = Some ?ok" by (simp add: canonical_value_def)
  have good: "\<forall>(h, x) \<in> set (own_entries ?ok). \<forall>t. map_of HEADER_TYPES h = Some t \<longrightarrow> typeof x = t"
    by (simp add: HEADER_TYPES_def)
  note inst = typed_headers_checked [where node = "preamble_node canonical_text" and now = today]
  from inst [where parse = "decoded_as string_sip_value", OF t p o] bad
  have "yaml (decoded_as string_sip_value) today (preamble_node canonical_text) = ([NotProperYAML], None)"
    by blast
  moreover from inst [where parse = "decoded_as canonical_value", OF t p' o'] good
  have "load_preamble (decoded_as canonical_value) (node_value (preamble_node canonical_text)) = Inr ?ok"
    by blast
  ultimately show ?thesis by (simp add: preamble_node_def)
qed

text \<open>
  C4, on the code as it is. The loader does not check the type of \<^verbatim>\<open>category\<close>. The
  interface \<^verbatim>\<open>Preamble\<close> declares \<^verbatim>\<open>category?: string\<close>, and \<open>assertIsPreamble\<close>
  asserts that its argument is a \<^verbatim>\<open>Preamble\<close>, but \<open>HEADER_TYPES\<close> has an entry for
  every other recognized header and none for this one. A preamble whose category is the
  number 5 goes through the loader, all the checks run, and the only report is the
  later one that the category is not a valid category, where the one report that the
  front-matter is not proper YAML is due.
\<close>

theorem numeric_category_not_rejected:
  "map_of HEADER_TYPES ''category'' = None
   \<and> typeof (JNum 5) \<noteq> ''string''
   \<and> map_of numeric_category_entries ''category'' = Some (JNum 5)
   \<and> load_preamble (decoded_as numeric_category_value) numeric_category_text
       = Inr (Plain numeric_category_entries)
   \<and> yaml (decoded_as numeric_category_value) today (preamble_node numeric_category_text)
       = ([InvalidCategory], None)
   \<and> yaml (decoded_as numeric_category_value) today (preamble_node numeric_category_text)
       \<noteq> ([NotProperYAML], None)"
  by code_simp



subsection \<open>Counting reports\<close>

lemma set_insertion_order: "set (insertion_order ks) = set ks"
  by (induction ks) auto

lemma count_list_distinct: "distinct xs \<Longrightarrow> count_list xs x = (if x \<in> set xs then 1 else 0)"
  by (induction xs) auto

lemma count_list_filter: "count_list (filter P xs) x = (if P x then count_list xs x else 0)"
  by (induction xs) auto

lemma count_required:
  "count_list (check_required headers) (RequiredMissing required) =
     (if required \<in> set HEADER_REQUIRED \<and> required \<notin> set headers then 1 else 0)"
proof -
  have d: "distinct HEADER_REQUIRED" by (simp add: HEADER_REQUIRED_def)
  have "inj RequiredMissing" by (simp add: inj_def)
  then have "count_list (check_required headers) (RequiredMissing required) =
    count_list (filter (\<lambda>r. r \<notin> set headers) HEADER_REQUIRED) required"
    unfolding check_required_def by (rule count_list_map_conv)
  then show ?thesis by (simp add: count_list_filter count_list_distinct [OF d])
qed

lemma count_dates:
  "count_list (map InvalidDate (filter P HEADER_DATES)) (InvalidDate h) =
     (if h \<in> set HEADER_DATES \<and> P h then 1 else 0)"
proof -
  have d: "distinct HEADER_DATES" by (simp add: HEADER_DATES_def)
  have "inj InvalidDate" by (simp add: inj_def)
  then have "count_list (map InvalidDate (filter P HEADER_DATES)) (InvalidDate h) =
    count_list (filter P HEADER_DATES) h"
    by (rule count_list_map_conv)
  then show ?thesis by (simp add: count_list_filter count_list_distinct [OF d])
qed

text \<open>How often the handler makes a given report on a loaded preamble, check by check.\<close>

lemma yaml_count:
  assumes "node_type node = ''yaml''" and "load_preamble parse (node_value node) = Inr ob"
  shows "count_list (fst (yaml parse now node)) d =
    count_list (check_required (insertion_order (own_keys ob))) d
    + count_list (check_unknown (insertion_order (own_keys ob))) d
    + count_list (map InvalidDate
         (filter (\<lambda>h. \<exists>s. get_property ob h = Some (JStr s) \<and> \<not> isValidDate now s) HEADER_DATES)) d
    + count_list (check_status ob) d + count_list (check_updated ob) d
    + count_list (check_category ob) d + count_list (fst (check_author ob)) d"
  unfolding yaml_loaded [OF assms] check_order_silent by simp

lemma key_checks_silent:
  "count_list (check_unknown hs) (RequiredMissing r) = 0"
  "count_list (check_unknown hs) LivingWithoutUpdated = 0"
  "count_list (check_unknown hs) AuthorMalformed = 0"
  "count_list (check_unknown hs) (InvalidDate h) = 0"
  "count_list (check_required hs) LivingWithoutUpdated = 0"
  "count_list (check_required hs) AuthorMalformed = 0"
  "count_list (check_required hs) (InvalidDate h) = 0"
  "count_list (map InvalidDate xs) (RequiredMissing r) = 0"
  "count_list (map InvalidDate xs) LivingWithoutUpdated = 0"
  "count_list (map InvalidDate xs) AuthorMalformed = 0"
  by (auto simp add: check_unknown_def check_required_def count_list_0_iff)

lemma value_checks_silent:
  assumes "d \<notin> {InvalidStatus, LivingWithoutUpdated, InvalidCategory}"
  shows "count_list (check_status ob) d = 0" and "count_list (check_updated ob) d = 0"
    and "count_list (check_category ob) d = 0"
  using assms
  by (auto simp add: check_status_def check_updated_def check_category_def split: option.splits)

lemma status_category_silent:
  "count_list (check_status ob) LivingWithoutUpdated = 0"
  "count_list (check_category ob) LivingWithoutUpdated = 0"
  by (auto simp add: check_status_def check_category_def split: option.splits)

lemma check_author_silent:
  assumes "load_preamble parse text = Inr ob" and "d \<noteq> AuthorMalformed"
  shows "count_list (fst (check_author ob)) d = 0"
proof -
  from load_preamble_Inr [OF assms(1)] obtain v where "assertIsPreamble v = Inr ob" by blast
  from check_author_reports [OF this] assms(2) have "d \<notin> set (fst (check_author ob))" by blast
  then show ?thesis by (simp add: count_list_0_iff)
qed

text \<open>
  C8. On a loaded preamble the handler reports each required header (\<^verbatim>\<open>sip\<close>,
  \<^verbatim>\<open>title\<close>, \<^verbatim>\<open>status\<close>, \<^verbatim>\<open>category\<close>, \<^verbatim>\<open>author\<close>, \<^verbatim>\<open>created\<close>) that is not
  among the keys of the preamble exactly once, by name, and reports no other header as
  missing, whatever else is wrong with the preamble.
\<close>

theorem required_headers_reported:
  assumes "node_type node = ''yaml''"
    and "load_preamble parse (node_value node) = Inr preamble"
  shows "count_list (fst (yaml parse now node)) (RequiredMissing required) =
           (if required \<in> set HEADER_REQUIRED \<and> required \<notin> set (own_keys preamble) then 1 else 0)
       \<and> HEADER_REQUIRED = [''sip'', ''title'', ''status'', ''category'', ''author'', ''created'']"
proof -
  have "count_list (fst (check_author preamble)) (RequiredMissing required) = 0"
    using assms(2) by (rule check_author_silent) simp
  then have "count_list (fst (yaml parse now node)) (RequiredMissing required) =
      count_list (check_required (insertion_order (own_keys preamble))) (RequiredMissing required)"
    unfolding yaml_count [OF assms]
    by (simp add: key_checks_silent value_checks_silent)
  then show ?thesis
    by (simp add: count_required set_insertion_order HEADER_REQUIRED_def)
qed

theorem required_headers_reported_witness:
  "count_list (fst (yaml (decoded_as living_value) today (preamble_node living_text)))
     (RequiredMissing ''category'') = 1
   \<and> count_list (fst (yaml (decoded_as living_value) today (preamble_node living_text)))
     (RequiredMissing ''sip'') = 0
   \<and> count_list (fst (yaml (decoded_as sequence_value) today (preamble_node sequence_text)))
     (RequiredMissing ''sip'') = 1
   \<and> count_list (fst (yaml (decoded_as sequence_value) today (preamble_node sequence_text)))
     (RequiredMissing ''created'') = 1"
proof -
  have t: "node_type (preamble_node living_text) = ''yaml''"
    "node_type (preamble_node sequence_text) = ''yaml''"
    by (simp_all add: preamble_node_def)
  have l: "load_preamble (decoded_as living_value) (node_value (preamble_node living_text))
      = Inr (Plain [(''sip'', JNum 1), (''title'', JStr ''Example''), (''status'', JStr ''living''),
           (''author'', JStr ''Jane Doe (@janedoe), ###bad###, John Roe''),
           (''created'', JStr ''2099-01-01'')])"
    by code_simp
  have s: "load_preamble (decoded_as sequence_value) (node_value (preamble_node sequence_text))
      = Inr (Array [JStr ''sip'', JStr ''title''])"
    by code_simp
  have k: "own_keys (Plain [(''sip'', JNum 1), (''title'', JStr ''Example''), (''status'', JStr ''living''),
           (''author'', JStr ''Jane Doe (@janedoe), ###bad###, John Roe''),
           (''created'', JStr ''2099-01-01'')]) = [''sip'', ''title'', ''status'', ''author'', ''created'']"
    by code_simp
  have k': "own_keys (Array [JStr ''sip'', JStr ''title'']) = [''0'', ''1'']"
    by code_simp
  note a = required_headers_reported [where parse = "decoded_as living_value" and now = today,
      OF t(1) l, unfolded k]
  note b = required_headers_reported [where parse = "decoded_as sequence_value" and now = today,
      OF t(2) s, unfolded k']
  have m: "''category'' \<in> set HEADER_REQUIRED" "''sip'' \<in> set HEADER_REQUIRED"
    "''created'' \<in> set HEADER_REQUIRED"
    by (simp_all add: HEADER_REQUIRED_def)
  have "count_list (fst (yaml (decoded_as living_value) today (preamble_node living_text)))
     (RequiredMissing ''category'') = 1"
    using a [of "''category''"] m by simp
  moreover have "count_list (fst (yaml (decoded_as living_value) today (preamble_node living_text)))
     (RequiredMissing ''sip'') = 0"
    using a [of "''sip''"] m by simp
  moreover have "count_list (fst (yaml (decoded_as sequence_value) today (preamble_node sequence_text)))
     (RequiredMissing ''sip'') = 1"
    using b [of "''sip''"] m by simp
  moreover have "count_list (fst (yaml (decoded_as sequence_value) today (preamble_node sequence_text)))
     (RequiredMissing ''created'') = 1"
    using b [of "''created''"] m by simp
  ultimately show ?thesis by blast
qed

text \<open>
  C6. On a loaded preamble the handler reports once that a living proposal lacks the
  header \<^verbatim>\<open>updated\<close> exactly when the status is the string \<^verbatim>\<open>living\<close>, in lower
  case, and \<^verbatim>\<open>updated\<close> is not among the keys; for any other status, the capitalized
  \<^verbatim>\<open>Living\<close> of the set of statuses included, it does not.
\<close>

theorem living_requires_updated:
  assumes "node_type node = ''yaml''"
    and "load_preamble parse (node_value node) = Inr preamble"
  shows "count_list (fst (yaml parse now node)) LivingWithoutUpdated =
           (if get_property preamble ''status'' = Some (JStr ''living'')
               \<and> ''updated'' \<notin> set (own_keys preamble) then 1 else 0)
       \<and> ''Living'' \<in> set STATUES \<and> ''living'' \<notin> set STATUES"
proof -
  have "count_list (fst (check_author preamble)) LivingWithoutUpdated = 0"
    using assms(2) by (rule check_author_silent) simp
  then have "count_list (fst (yaml parse now node)) LivingWithoutUpdated =
      count_list (check_updated preamble) LivingWithoutUpdated"
    unfolding yaml_count [OF assms]
    by (simp add: key_checks_silent status_category_silent)
  moreover have "has_property ''updated'' preamble = (''updated'' \<in> set (own_keys preamble))"
    by (rule has_property_own) (simp add: HEADER_ORDER_def)
  ultimately show ?thesis by (simp add: check_updated_def STATUES_def)
qed

theorem living_requires_updated_witness:
  "count_list (fst (yaml (decoded_as living_value) today (preamble_node living_text)))
     LivingWithoutUpdated = 1
   \<and> count_list (fst (yaml (decoded_as canonical_value) today (preamble_node canonical_text)))
     LivingWithoutUpdated = 0"
proof -
  have t: "node_type (preamble_node living_text) = ''yaml''"
    "node_type (preamble_node canonical_text) = ''yaml''"
    by (simp_all add: preamble_node_def)
  let ?l = "Plain [(''sip'', JNum 1), (''title'', JStr ''Example''), (''status'', JStr ''living''),
           (''author'', JStr ''Jane Doe (@janedoe), ###bad###, John Roe''),
           (''created'', JStr ''2099-01-01'')]"
  let ?c = "Plain [(''sip'', JNum 1), (''title'', JStr ''Example''), (''status'', JStr ''Draft''),
           (''category'', JStr ''Core''), (''author'', JStr ''Jane Doe (@janedoe)''),
           (''created'', JStr ''2024-01-15'')]"
  have l: "load_preamble (decoded_as living_value) (node_value (preamble_node living_text)) = Inr ?l"
    by code_simp
  have c: "load_preamble (decoded_as canonical_value) (node_value (preamble_node canonical_text)) = Inr ?c"
    by code_simp
  have g: "get_property ?l ''status'' = Some (JStr ''living'')"
    "''updated'' \<notin> set (own_keys ?l)"
    "get_property ?c ''status'' \<noteq> Some (JStr ''living'')"
    by code_simp+
  from living_requires_updated [where parse = "decoded_as living_value" and now = today, OF t(1) l]
    living_requires_updated [where parse = "decoded_as canonical_value" and now = today, OF t(2) c]
    g
  show ?thesis by simp
qed

text \<open>
  C1, on the code as it is. A preamble whose first two headers are swapped gets no
  report at all: the pattern extracts the first header only, \<^verbatim>\<open>title\<close>, and the
  guard of the loop is false.
\<close>

theorem swapped_headers_not_reported:
  "orderedHeaders swapped_text = [Some ''title'']
   \<and> HEADER_ORDER_at 0 = Some ''sip''
   \<and> check_order swapped_text = []
   \<and> yaml (decoded_as swapped_value) today (preamble_node swapped_text) = ([], None)"
  by code_simp

subsection \<open>Dates\<close>

lemma ISO8601_not_at_start: "p \<noteq> [] \<Longrightarrow> rmatch False ISO8601 (g, p, r) = []"
  by (simp add: ISO8601_def Seqs_def)

lemma ISO8601_exec_from_later: "p \<noteq> [] \<Longrightarrow> exec_from False ISO8601 3 p r = None"
  by (induction r arbitrary: p) (simp_all add: ISO8601_not_at_start)

lemma ISO8601_shape:
  "matches_date_pattern s \<longleftrightarrow>
     (\<exists>y1 y2 y3 y4 m1 m2 d1 d2.
        s = [y1, y2, y3, y4, CHR ''-'', m1, m2, CHR ''-'', d1, d2]
        \<and> is_digit y1 \<and> is_digit y2 \<and> is_digit y3 \<and> is_digit y4
        \<and> is_digit m1 \<and> is_digit m2 \<and> is_digit d1 \<and> is_digit d2)"
  (is "?l \<longleftrightarrow> ?r")
proof
  assume ?l
  then have len: "length s = 10" by (simp add: matches_date_pattern_def)
  then obtain a b c d e f g h i j where s: "s = [a, b, c, d, e, f, g, h, i, j]"
    by (auto simp add: length_Suc_conv eval_nat_numeral)
  with \<open>?l\<close> show ?r by (simp add: matches_date_pattern_def)
next
  assume ?r
  then show ?l by (auto simp add: matches_date_pattern_def)
qed

lemma ISO8601_match:
  assumes "is_digit y1" "is_digit y2" "is_digit y3" "is_digit y4"
    "is_digit m1" "is_digit m2" "is_digit d1" "is_digit d2"
  shows "exec False ISO8601 3 [y1, y2, y3, y4, CHR ''-'', m1, m2, CHR ''-'', d1, d2] =
    Some [Some [y1, y2, y3, y4, CHR ''-'', m1, m2, CHR ''-'', d1, d2],
          Some [y1, y2, y3, y4], Some [m1, m2], Some [d1, d2]]"
  using assms by (simp add: exec_def ISO8601_def Seqs_def eval_nat_numeral)

lemma ISO8601_only_pattern:
  assumes "rmatch False ISO8601 (g, [], s) \<noteq> []"
  shows "matches_date_pattern s"
proof -
  from assms have
    "\<exists>y1 y2 y3 y4 m1 m2 d1 d2.
        s = [y1, y2, y3, y4, CHR ''-'', m1, m2, CHR ''-'', d1, d2]
        \<and> is_digit y1 \<and> is_digit y2 \<and> is_digit y3 \<and> is_digit y4
        \<and> is_digit m1 \<and> is_digit m2 \<and> is_digit d1 \<and> is_digit d2"
    by (auto simp add: ISO8601_def Seqs_def split: list.splits if_splits)
  then show ?thesis by (simp only: ISO8601_shape)
qed

lemma ISO8601_no_match:
  assumes "\<not> matches_date_pattern s"
  shows "exec False ISO8601 3 s = None"
proof -
  from assms ISO8601_only_pattern have none: "rmatch False ISO8601 (replicate 4 None, [], s) = []"
    by blast
  show ?thesis
  proof (cases s)
    case Nil
    with none show ?thesis by (simp add: exec_def eval_nat_numeral)
  next
    case (Cons x xs)
    with none ISO8601_exec_from_later [of "[x]" xs] show ?thesis
      by (simp add: exec_def eval_nat_numeral)
  qed
qed

text \<open>\<open>isValidDate\<close> against the date pattern in words and the three comparisons.\<close>

lemma isValidDate_iff:
  "isValidDate now s \<longleftrightarrow>
     matches_date_pattern s
     \<and> Number (take 4 s) \<le> getFullYear now
     \<and> Number (take 2 (drop 5 s)) \<le> getMonth now + 1
     \<and> Number (drop 8 s) \<le> getDate now"
proof (cases "matches_date_pattern s")
  case False
  with ISO8601_no_match [OF False] show ?thesis by (simp add: isValidDate_def)
next
  case True
  then obtain y1 y2 y3 y4 m1 m2 d1 d2 where
    s: "s = [y1, y2, y3, y4, CHR ''-'', m1, m2, CHR ''-'', d1, d2]"
    and d: "is_digit y1" "is_digit y2" "is_digit y3" "is_digit y4"
      "is_digit m1" "is_digit m2" "is_digit d1" "is_digit d2"
    unfolding ISO8601_shape by blast
  from True show ?thesis
    unfolding isValidDate_def s ISO8601_match [OF d] by (simp add: group_def)
qed

text \<open>
  C5. A date is accepted exactly when it has the form of four digits, a hyphen, two
  digits, a hyphen and two digits, and its year is at most the current year, its month
  at most the current month (\<open>getMonth\<close> counts from 0) and its day at most the current
  day of the month, each on its own. So \<^verbatim>\<open>2024-13-01\<close> is never accepted, nor is a
  year after the current one. On a loaded preamble the headers \<^verbatim>\<open>created\<close> and
  \<^verbatim>\<open>updated\<close>, when present, are strings, and the handler reports each of the two
  once if it is present and not accepted, and not otherwise.
\<close>

theorem date_headers_checked:
  assumes "node_type node = ''yaml''"
    and "load_preamble parse (node_value node) = Inr preamble"
  shows "(isValidDate now s \<longleftrightarrow>
            matches_date_pattern s
            \<and> Number (take 4 s) \<le> getFullYear now
            \<and> Number (take 2 (drop 5 s)) \<le> getMonth now + 1
            \<and> Number (drop 8 s) \<le> getDate now)
       \<and> (getMonth now < 12 \<longrightarrow> \<not> isValidDate now ''2024-13-01'')
       \<and> (getFullYear now < Number (take 4 s) \<longrightarrow> \<not> isValidDate now s)
       \<and> count_list (fst (yaml parse now node)) (InvalidDate h) =
           (if h \<in> set HEADER_DATES
               \<and> (\<exists>d. get_property preamble h = Some (JStr d) \<and> \<not> isValidDate now d)
            then 1 else 0)
       \<and> (h \<in> set HEADER_DATES \<and> h \<in> set (own_keys preamble)
            \<longrightarrow> (\<exists>d. get_property preamble h = Some (JStr d)))
       \<and> HEADER_DATES = [''created'', ''updated'']"
proof -
  have thirteen: "\<not> isValidDate now ''2024-13-01''" if "getMonth now < 12"
  proof -
    have "Number (take 2 (drop 5 ''2024-13-01'')) = 13"
      by (simp add: Number_def digit_value_def)
    with that show ?thesis by (simp add: isValidDate_iff)
  qed
  have future: "\<not> isValidDate now s" if "getFullYear now < Number (take 4 s)"
    using that by (simp add: isValidDate_iff)
  have "count_list (fst (check_author preamble)) (InvalidDate h) = 0"
    using assms(2) by (rule check_author_silent) simp
  then have count: "count_list (fst (yaml parse now node)) (InvalidDate h) =
      (if h \<in> set HEADER_DATES
          \<and> (\<exists>d. get_property preamble h = Some (JStr d) \<and> \<not> isValidDate now d)
       then 1 else 0)"
    unfolding yaml_count [OF assms]
    by (simp add: key_checks_silent value_checks_silent count_dates)
  from load_preamble_Inr [OF assms(2)] obtain v where v: "assertIsPreamble v = Inr preamble"
    by blast
  have strings: "\<exists>d. get_property preamble h = Some (JStr d)"
    if "h \<in> set HEADER_DATES \<and> h \<in> set (own_keys preamble)"
    using that loaded_string [OF v, of h] by (auto simp add: HEADER_DATES_def)
  from thirteen future count strings isValidDate_iff [of now s] show ?thesis
    by (simp add: HEADER_DATES_def)
qed

theorem date_headers_checked_witness:
  "isValidDate today ''2024-01-15''
   \<and> \<not> isValidDate today ''2024-13-01''
   \<and> \<not> isValidDate today ''2099-01-01''
   \<and> count_list (fst (yaml (decoded_as living_value) today (preamble_node living_text)))
        (InvalidDate ''created'') = 1
   \<and> count_list (fst (yaml (decoded_as living_value) today (preamble_node living_text)))
        (InvalidDate ''updated'') = 0"
proof -
  let ?l = "Plain [(''sip'', JNum 1), (''title'', JStr ''Example''), (''status'', JStr ''living''),
           (''author'', JStr ''Jane Doe (@janedoe), ###bad###, John Roe''),
           (''created'', JStr ''2099-01-01'')]"
  have t: "node_type (preamble_node living_text) = ''yaml''" by (simp add: preamble_node_def)
  have l: "load_preamble (decoded_as living_value) (node_value (preamble_node living_text)) = Inr ?l"
    by code_simp
  note inst = date_headers_checked [where parse = "decoded_as living_value" and now = today, OF t l]
  have p: "matches_date_pattern ''2024-01-15''" "matches_date_pattern ''2099-01-01''"
    by code_simp+
  have n: "Number (take 4 ''2024-01-15'') = 2024" "Number (take 2 (drop 5 ''2024-01-15'')) = 1"
    "Number (drop 8 ''2024-01-15'') = 15" "Number (take 4 ''2099-01-01'') = 2099"
    by (simp_all add: Number_def digit_value_def)
  have d: "getFullYear today = 2025" "getMonth today = 5" "getDate today = 15"
    by (simp_all add: today_def)
  have g: "get_property ?l ''created'' = Some (JStr ''2099-01-01'')"
    "get_property ?l ''updated'' = None"
    by code_simp+
  have m: "''created'' \<in> set HEADER_DATES" by (simp add: HEADER_DATES_def)
  have 1: "isValidDate today ''2024-01-15''"
    using inst [of "''2024-01-15''" "''created''"] p n d by simp
  have 2: "\<not> isValidDate today ''2024-13-01''"
    using inst [of "''2024-01-15''" "''created''"] d by simp
  have 3: "\<not> isValidDate today ''2099-01-01''"
    using inst [of "''2099-01-01''" "''created''"] n d by simp
  have 4: "count_list (fst (yaml (decoded_as living_value) today (preamble_node living_text)))
        (InvalidDate ''created'') = 1"
    using inst [of "''2099-01-01''" "''created''"] g m 3 by simp
  have 5: "count_list (fst (yaml (decoded_as living_value) today (preamble_node living_text)))
        (InvalidDate ''updated'') = 0"
    using inst [of "''2099-01-01''" "''updated''"] g by simp
  from 1 2 3 4 5 show ?thesis by blast
qed

subsection \<open>Authors\<close>

lemma author_loop_stops:
  assumes "\<forall>a \<in> set pre. exec False AUTHOR 2 (trim a) \<noteq> None"
    and "exec False AUTHOR 2 (trim bad) = None"
  shows "author_loop (pre @ bad # rest) b = ([AuthorMalformed], True)"
  using assms(1)
proof (induction pre arbitrary: b)
  case Nil
  from assms(2) show ?case by simp
next
  case (Cons a pre)
  then obtain m where "exec False AUTHOR 2 (trim a) = Some m" by auto
  with Cons show ?case by simp
qed

text \<open>
  C7. When the author header of a loaded preamble has, among its comma-separated
  pieces, one that does not match the author pattern once trimmed, as \<^verbatim>\<open>###bad###\<close>
  does not, the handler reports a malformed author exactly once: the loop ends at the
  first such piece, and what follows it has no effect.
\<close>

theorem malformed_author_reported_once:
  assumes "node_type node = ''yaml''"
    and "load_preamble parse (node_value node) = Inr preamble"
    and "get_property preamble ''author'' = Some (JStr author)"
    and "\<exists>a \<in> set (split_comma author). exec False AUTHOR 2 (trim a) = None"
  shows "count_list (fst (yaml parse now node)) AuthorMalformed = 1
       \<and> fst (check_author preamble) = [AuthorMalformed]
       \<and> (\<exists>pre bad rest.
             split_comma author = pre @ bad # rest
             \<and> (\<forall>a \<in> set pre. exec False AUTHOR 2 (trim a) \<noteq> None)
             \<and> exec False AUTHOR 2 (trim bad) = None
             \<and> (\<forall>others b. author_loop (pre @ bad # others) b = ([AuthorMalformed], True)))
       \<and> exec False AUTHOR 2 (trim ''###bad###'') = None"
proof -
  from split_list_first_prop [OF assms(4)] obtain pre bad rest where
    split: "split_comma author = pre @ bad # rest"
    and bad: "exec False AUTHOR 2 (trim bad) = None"
    and pre: "\<forall>a \<in> set pre. exec False AUTHOR 2 (trim a) \<noteq> None"
    by blast
  have stops: "author_loop (pre @ bad # others) b = ([AuthorMalformed], True)" for others b
    using pre bad by (rule author_loop_stops)
  from load_preamble_Inr [OF assms(2)] obtain v where v: "assertIsPreamble v = Inr preamble"
    by blast
  have author: "fst (check_author preamble) = [AuthorMalformed]"
    by (simp add: check_author_loaded [OF v] assms(3) split stops)
  then have "count_list (fst (yaml parse now node)) AuthorMalformed = 1"
    unfolding yaml_count [OF assms(1,2)]
    by (simp add: key_checks_silent value_checks_silent)
  moreover have "exec False AUTHOR 2 (trim ''###bad###'') = None" by code_simp
  ultimately show ?thesis using author split bad pre stops by blast
qed

theorem malformed_author_reported_once_witness:
  "count_list (fst (yaml (decoded_as living_value) today (preamble_node living_text)))
     AuthorMalformed = 1
   \<and> split_comma ''Jane Doe (@janedoe), ###bad###, John Roe''
       = [''Jane Doe (@janedoe)'', '' ###bad###'', '' John Roe'']
   \<and> exec False AUTHOR 2 (trim '' ###bad###'') = None"
proof -
  let ?l = "Plain [(''sip'', JNum 1), (''title'', JStr ''Example''), (''status'', JStr ''living''),
           (''author'', JStr ''Jane Doe (@janedoe), ###bad###, John Roe''),
           (''created'', JStr ''2099-01-01'')]"
  have t: "node_type (preamble_node living_text) = ''yaml''" by (simp add: preamble_node_def)
  have l: "load_preamble (decoded_as living_value) (node_value (preamble_node living_text)) = Inr ?l"
    by code_simp
  have g: "get_property ?l ''author'' = Some (JStr ''Jane Doe (@janedoe), ###bad###, John Roe'')"
    by code_simp
  have s: "split_comma ''Jane Doe (@janedoe), ###bad###, John Roe''
       = [''Jane Doe (@janedoe)'', '' ###bad###'', '' John Roe'']"
    by code_simp
  have b: "exec False AUTHOR 2 (trim '' ###bad###'') = None" by code_simp
  have e: "\<exists>a \<in> set (split_comma ''Jane Doe (@janedoe), ###bad###, John Roe'').
      exec False AUTHOR 2 (trim a) = None"
    unfolding s using b by simp
  from malformed_author_reported_once
    [where parse = "decoded_as living_value" and now = today, OF t l g e] s b
  show ?thesis by blast
qed

text \<open>
  C2, on the code as it is. The report that no author has a github account is never
  made. A match array has a slot for each of the two groups of the pattern whether or
  not the group took part, so its length is 3, and the loop sets \<open>hasGithub\<close> for any
  author that matches: the preamble whose only author is \<^verbatim>\<open>Jane Doe\<close> gets no report.
\<close>

theorem handle_diagnostic_never_reported:
  "AuthorNoGithub \<notin> set (fst (yaml parse now node))
   \<and> exec False AUTHOR 2 (trim ''Jane Doe'') = Some [Some ''Jane Doe'', None, None]
   \<and> author_loop (split_comma ''Jane Doe'') False = ([], True)
   \<and> yaml (decoded_as no_handle_value) today (preamble_node no_handle_text) = ([], None)"
proof -
  have "AuthorNoGithub \<notin> set (fst (yaml parse now node))"
    using yaml_reports [of parse now node] by auto
  moreover have "exec False AUTHOR 2 (trim ''Jane Doe'') = Some [Some ''Jane Doe'', None, None]"
    by code_simp
  moreover have "author_loop (split_comma ''Jane Doe'') False = ([], True)"
    by code_simp
  moreover have "yaml (decoded_as no_handle_value) today (preamble_node no_handle_text) = ([], None)"
    by code_simp
  ultimately show ?thesis by blast
qed

end
